theory Spec2Isabelle
  imports Complex_Main
begin

section \<open>Data model\<close>

text \<open>
  The program is \<^verbatim>\<open>src/proteus/genome.py\<close>. A Python \<^verbatim>\<open>str\<close> is a sequence of
  Unicode code points, and \<^verbatim>\<open>len\<close> counts code points, so a string is modelled as
  the list of its code points; a one-character string is a one-element list. ASCII
  literals are written through \<open>str\<close>.
\<close>

type_synonym codepoint = nat
type_synonym pystr = "codepoint list"

definition str :: "string \<Rightarrow> pystr" where
  "str cs = map of_char cs"

text \<open>
  Every exception the module can raise is a value. \<open>KeyError\<close> carries the missing
  key, \<open>ValueError\<close> its message, \<open>IndexError\<close> is what numpy raises for an index
  outside an axis, and \<open>FetchError\<close> stands for whatever the sequence storage
  (pyfaidx) raises on its own.
\<close>

datatype error = KeyError pystr | ValueError pystr | IndexError | FetchError pystr

text \<open>
  A numpy array of shape \<open>N \<times> 4\<close> is the list of its \<open>N\<close> rows. The only entries
  the module writes are \<open>0\<close>, \<open>1\<close> and \<open>0.25\<close>, which float64 represents exactly,
  and the only operation on entries is the comparison with \<open>1\<close>; the entries are
  modelled as reals.
\<close>

type_synonym ndarray = "real list list"

definition np_zeros :: "nat \<Rightarrow> nat \<Rightarrow> ndarray" where
  "np_zeros n m = replicate n (replicate m 0)"

text \<open>
  numpy index normalisation on an axis of size \<open>n\<close>: an index in \<open>[-n, n)\<close> is
  accepted, negative ones counting from the end; anything else is IndexError.
\<close>

definition np_index :: "nat \<Rightarrow> int \<Rightarrow> error + nat" where
  "np_index n i =
     (if 0 \<le> i \<and> i < int n then Inr (nat i)
      else if - int n \<le> i \<and> i < 0 then Inr (nat (i + int n))
      else Inl IndexError)"

text \<open>\<^verbatim>\<open>encoding[index, col] = v\<close>\<close>

definition setitem :: "ndarray \<Rightarrow> nat \<Rightarrow> int \<Rightarrow> real \<Rightarrow> error + ndarray" where
  "setitem a index col v =
     (if index < length a then
        (case np_index (length (a ! index)) col of
           Inl e \<Rightarrow> Inl e
         | Inr j \<Rightarrow> Inr (a[index := (a ! index)[j := v]]))
      else Inl IndexError)"

text \<open>\<^verbatim>\<open>encoding[index, :] = v\<close>\<close>

definition setrow :: "ndarray \<Rightarrow> nat \<Rightarrow> real \<Rightarrow> error + ndarray" where
  "setrow a index v =
     (if index < length a then Inr (a[index := map (\<lambda>_. v) (a ! index)])
      else Inl IndexError)"

section \<open>\<^verbatim>\<open>str.upper\<close>\<close>

text \<open>
  \<^verbatim>\<open>str.upper\<close> maps every code point to its full Unicode uppercase mapping, which
  is one to three code points long; the results are concatenated. The rows for
  U+0000 to U+00FF are written out: \<open>a\<close>..\<open>z\<close> and the Latin-1 lowercase letters
  move down by 32, the micro sign U+00B5 becomes U+039C, U+00FF becomes U+0178,
  and the sharp s U+00DF becomes the two letters \<open>SS\<close>. The rows above U+00FF are a
  parameter \<open>tbl\<close> of the model; a row is a first code point and the rest, so no row
  is empty.
\<close>

definition upper_latin1 :: "codepoint \<Rightarrow> pystr" where
  "upper_latin1 c =
     (if 97 \<le> c \<and> c \<le> 122 then [c - 32]
      else if c = 181 then [924]
      else if c = 223 then [83, 83]
      else if 224 \<le> c \<and> c \<le> 254 \<and> c \<noteq> 247 then [c - 32]
      else if c = 255 then [376]
      else [c])"

type_synonym case_table = "codepoint \<Rightarrow> codepoint \<times> pystr"

definition upper_char :: "case_table \<Rightarrow> codepoint \<Rightarrow> pystr" where
  "upper_char tbl c =
     (if c < 256 then upper_latin1 c else fst (tbl c) # snd (tbl c))"

definition str_upper :: "case_table \<Rightarrow> pystr \<Rightarrow> pystr" where
  "str_upper tbl s = concat (map (upper_char tbl) s)"

section \<open>The codec\<close>

text \<open>
  \<^verbatim>\<open>_sequence_to_encoding(sequence, bases_encoding)\<close>. The array is allocated from
  the length of the argument, then the argument is uppercased, then the loop
  enumerates the uppercased string and writes row \<open>index\<close>. The calls of
  \<^verbatim>\<open>time()\<close> have no effect on the result and are left out.
\<close>

fun encode_loop :: "(pystr \<rightharpoonup> int) \<Rightarrow> ndarray \<Rightarrow> nat \<Rightarrow> pystr \<Rightarrow> error + ndarray" where
  "encode_loop bases_encoding encoding index [] = Inr encoding"
| "encode_loop bases_encoding encoding index (base # rest) =
     (case bases_encoding [base] of
        Some col \<Rightarrow>
          (case setitem encoding index col 1 of
             Inl e \<Rightarrow> Inl e
           | Inr encoding' \<Rightarrow> encode_loop bases_encoding encoding' (Suc index) rest)
      | None \<Rightarrow>
          (case setrow encoding index (1 / 4) of
             Inl e \<Rightarrow> Inl e
           | Inr encoding' \<Rightarrow> encode_loop bases_encoding encoding' (Suc index) rest))"

definition sequence_to_encoding ::
  "case_table \<Rightarrow> pystr \<Rightarrow> (pystr \<rightharpoonup> int) \<Rightarrow> error + ndarray" where
  "sequence_to_encoding tbl sequence bases_encoding =
     encode_loop bases_encoding (np_zeros (length sequence) 4) 0 (str_upper tbl sequence)"

text \<open>
  \<^verbatim>\<open>_encoding_to_sequence(encoding, bases_arr)\<close>. \<^verbatim>\<open>np.where(row == 1)[0]\<close> is the
  list of the columns whose entry equals 1. Indexing \<^verbatim>\<open>bases_arr\<close> past its end
  raises IndexError.
\<close>

definition np_where_eq1 :: "real list \<Rightarrow> nat list" where
  "np_where_eq1 row = filter (\<lambda>i. row ! i = 1) [0..<length row]"

fun decode_loop :: "pystr list \<Rightarrow> pystr list \<Rightarrow> ndarray \<Rightarrow> error + pystr list" where
  "decode_loop bases_arr sequence [] = Inr sequence"
| "decode_loop bases_arr sequence (row # rest) =
     (let base_pos = np_where_eq1 row in
      if length base_pos \<noteq> 1 then decode_loop bases_arr (sequence @ [str ''N'']) rest
      else if hd base_pos < length bases_arr
           then decode_loop bases_arr (sequence @ [bases_arr ! hd base_pos]) rest
      else Inl IndexError)"

definition encoding_to_sequence :: "ndarray \<Rightarrow> pystr list \<Rightarrow> error + pystr" where
  "encoding_to_sequence encoding bases_arr =
     (case decode_loop bases_arr [] encoding of
        Inl e \<Rightarrow> Inl e
      | Inr sequence \<Rightarrow> Inr (concat sequence))"

text \<open>
  The class attributes of \<^verbatim>\<open>Genome\<close>. \<^verbatim>\<open>dict\<close> applied to a list of pairs keeps the
  last value of a repeated key.
\<close>

definition BASES_ARR :: "pystr list" where
  "BASES_ARR = [str ''A'', str ''C'', str ''G'', str ''T'']"

definition BASES_DICT :: "pystr \<rightharpoonup> int" where
  "BASES_DICT = map_of (rev (map (\<lambda>(index, base). (base, int index)) (enumerate 0 BASES_ARR)))"

section \<open>The sequence storage and the genome\<close>

text \<open>
  \<^verbatim>\<open>pyfaidx.Fasta\<close> is an external library; the module uses three of its
  operations, which are the fields of the record: \<open>fa_slice g chrom start end\<close> is
  \<^verbatim>\<open>g[chrom][start:end]\<close>, a \<^verbatim>\<open>Sequence\<close> object, identified with its \<^verbatim>\<open>.seq\<close>
  string; \<open>fa_reverse\<close> and \<open>fa_complement\<close> are the \<^verbatim>\<open>.reverse\<close> and
  \<^verbatim>\<open>.complement\<close> properties of such an object. Each may raise.
\<close>

record Fasta =
  fa_slice :: "pystr \<Rightarrow> int \<Rightarrow> int \<Rightarrow> error + pystr"
  fa_reverse :: "pystr \<Rightarrow> error + pystr"
  fa_complement :: "pystr \<Rightarrow> error + pystr"

text \<open>
  The attributes of a \<^verbatim>\<open>Genome\<close> object. The constructor fills them from the
  storage and nothing changes them afterwards; the theorems below hold for every
  value of the attributes, hence for the constructed ones.
\<close>

record Genome =
  genome :: Fasta
  chrs :: "pystr list"
  len_chrs :: "pystr \<rightharpoonup> int"

text \<open>
  \<^verbatim>\<open>_get_sequence_from_coords(len_chrs, genome_sequence, chrom, start, end, strand)\<close>.
  The first comparison reads \<^verbatim>\<open>len_chrs[chrom]\<close>, which raises KeyError for a
  missing key before anything else is looked at.
\<close>

definition get_sequence_from_coords ::
  "(pystr \<rightharpoonup> int) \<Rightarrow> (pystr \<Rightarrow> int \<Rightarrow> int \<Rightarrow> pystr \<Rightarrow> error + pystr)
     \<Rightarrow> pystr \<Rightarrow> int \<Rightarrow> int \<Rightarrow> pystr \<Rightarrow> error + pystr" where
  "get_sequence_from_coords lens genome_sequence chrom start end strand =
     (case lens chrom of
        None \<Rightarrow> Inl (KeyError chrom)
      | Some n \<Rightarrow>
          if start > n \<or> end > n \<or> start < 0 then Inr []
          else if strand = str ''+'' then genome_sequence chrom start end strand
          else if strand = str ''-'' then genome_sequence chrom start end strand
          else Inl (ValueError
                 (str ''Strand must be one of '+' or '-'. Input was '' @ strand)))"

text \<open>\<^verbatim>\<open>Genome._genome_sequence\<close>\<close>

definition Genome_genome_sequence ::
  "Genome \<Rightarrow> pystr \<Rightarrow> int \<Rightarrow> int \<Rightarrow> pystr \<Rightarrow> error + pystr" where
  "Genome_genome_sequence self chrom start end strand =
     (if strand = str ''+'' then fa_slice (genome self) chrom start end
      else
        (case fa_slice (genome self) chrom start end of
           Inl e \<Rightarrow> Inl e
         | Inr s \<Rightarrow>
             (case fa_reverse (genome self) s of
                Inl e \<Rightarrow> Inl e
              | Inr r \<Rightarrow> fa_complement (genome self) r)))"

text \<open>\<^verbatim>\<open>Genome.get_sequence_from_coords\<close>\<close>

definition Genome_get_sequence_from_coords ::
  "Genome \<Rightarrow> pystr \<Rightarrow> int \<Rightarrow> int \<Rightarrow> pystr \<Rightarrow> error + pystr" where
  "Genome_get_sequence_from_coords self chrom start end strand =
     get_sequence_from_coords (len_chrs self) (Genome_genome_sequence self)
       chrom start end strand"

text \<open>\<^verbatim>\<open>Genome.sequence_to_encoding\<close> and \<^verbatim>\<open>Genome.encoding_to_sequence\<close>\<close>

definition Genome_sequence_to_encoding :: "case_table \<Rightarrow> pystr \<Rightarrow> error + ndarray" where
  "Genome_sequence_to_encoding tbl sequence = sequence_to_encoding tbl sequence BASES_DICT"

definition Genome_encoding_to_sequence :: "ndarray \<Rightarrow> error + pystr" where
  "Genome_encoding_to_sequence encoding = encoding_to_sequence encoding BASES_ARR"

text \<open>\<^verbatim>\<open>Genome.get_encoding_from_coords\<close>\<close>

definition Genome_get_encoding_from_coords ::
  "case_table \<Rightarrow> Genome \<Rightarrow> pystr \<Rightarrow> int \<Rightarrow> int \<Rightarrow> pystr \<Rightarrow> error + ndarray" where
  "Genome_get_encoding_from_coords tbl self chrom start end strand =
     (case Genome_get_sequence_from_coords self chrom start end strand of
        Inl e \<Rightarrow> Inl e
      | Inr sequence \<Rightarrow> Genome_sequence_to_encoding tbl sequence)"

section \<open>Notions used in the statements\<close>

text \<open>
  The row the specification prescribes for an uppercased character: one-hot at the
  index of the base (A=0, C=1, G=2, T=3), and 0.25 everywhere for any other
  character.
\<close>

definition spec_row :: "codepoint \<Rightarrow> real list" where
  "spec_row c =
     (if c = of_char CHR ''A'' then [1, 0, 0, 0]
      else if c = of_char CHR ''C'' then [0, 1, 0, 0]
      else if c = of_char CHR ''G'' then [0, 0, 1, 0]
      else if c = of_char CHR ''T'' then [0, 0, 0, 1]
      else [1 / 4, 1 / 4, 1 / 4, 1 / 4])"

text \<open>
  The reverse complement in the specification's words: substitute symbol by symbol,
  then reverse the order. \<open>cmpl\<close> is the substitution; \<open>pairs_bases cmpl\<close> says that
  it exchanges A with T and C with G, which is all the specification says about it.
\<close>

definition spec_reverse_complement :: "(codepoint \<Rightarrow> codepoint) \<Rightarrow> pystr \<Rightarrow> pystr" where
  "spec_reverse_complement cmpl s = rev (map cmpl s)"

definition pairs_bases :: "(codepoint \<Rightarrow> codepoint) \<Rightarrow> bool" where
  "pairs_bases cmpl \<longleftrightarrow>
     cmpl (of_char CHR ''A'') = of_char CHR ''T'' \<and> cmpl (of_char CHR ''T'') = of_char CHR ''A'' \<and>
     cmpl (of_char CHR ''C'') = of_char CHR ''G'' \<and> cmpl (of_char CHR ''G'') = of_char CHR ''C''"

text \<open>The symbol the decoding loop appends for one row.\<close>

definition decode_row :: "pystr list \<Rightarrow> real list \<Rightarrow> pystr" where
  "decode_row bases_arr row =
     (if length (np_where_eq1 row) \<noteq> 1 then str ''N''
      else bases_arr ! hd (np_where_eq1 row))"

section \<open>An in-memory sequence storage\<close>

text \<open>
  Modelled from the spec: the indexed sequence storage (pyfaidx) is not part of the
  source. The specification describes it as a collaborator that returns the raw
  substring \<^verbatim>\<open>source[chromosome][start:end]\<close> and its reverse complement, and that
  can be replaced by an in-memory fake. \<open>mem_fasta\<close> is such a fake over a dictionary
  of strings, with Python's slice semantics: a negative bound counts from the end,
  bounds are clamped to the string, and an empty or inverted range gives the empty
  string. Its complement exchanges A with T and C with G and leaves every other
  symbol. It is used only to instantiate the general theorems at concrete requests.
\<close>

definition mem_complement :: "codepoint \<Rightarrow> codepoint" where
  "mem_complement c =
     (if c = of_char CHR ''A'' then of_char CHR ''T''
      else if c = of_char CHR ''T'' then of_char CHR ''A''
      else if c = of_char CHR ''C'' then of_char CHR ''G''
      else if c = of_char CHR ''G'' then of_char CHR ''C''
      else c)"

definition py_slice :: "'a list \<Rightarrow> int \<Rightarrow> int \<Rightarrow> 'a list" where
  "py_slice s start end =
     (let n = int (length s);
          lo = (if start < 0 then max (start + n) 0 else min start n);
          hi = (if end < 0 then max (end + n) 0 else min end n)
      in take (nat (hi - lo)) (drop (nat lo) s))"

definition mem_fasta :: "(pystr \<rightharpoonup> pystr) \<Rightarrow> Fasta" where
  "mem_fasta store =
     \<lparr> fa_slice = (\<lambda>chrom start end.
          case store chrom of
            None \<Rightarrow> Inl (KeyError chrom)
          | Some s \<Rightarrow> Inr (py_slice s start end)),
       fa_reverse = (\<lambda>s. Inr (rev s)),
       fa_complement = (\<lambda>s. Inr (map mem_complement s)) \<rparr>"

definition toy_genome :: Genome where
  "toy_genome =
     \<lparr> genome = mem_fasta [str ''chr1'' \<mapsto> str ''ACGTNACCGTTA''],
       chrs = [str ''chr1''],
       len_chrs = [str ''chr1'' \<mapsto> 12] \<rparr>"

text \<open>
  A case table without rows above U+00FF, for the concrete evaluations: their inputs
  are below U+0100, where the table is not consulted.
\<close>

definition no_rows :: case_table where
  "no_rows c = (c, [])"

section \<open>Lemmas about the encoding loop\<close>

lemma str_Nil: "str [] = []"
  by (simp add: str_def)

lemma str_Cons: "str (c # cs) = of_char c # str cs"
  by (simp add: str_def)

lemma BASES_DICT_lookup:
  "BASES_DICT [c] =
     (if c = 65 then Some 0 else if c = 67 then Some 1
      else if c = 71 then Some 2 else if c = 84 then Some 3 else None)"
  by (simp add: BASES_DICT_def BASES_ARR_def str_Nil str_Cons enumerate_eq_zip)

lemma replicate_4: "replicate 4 x = [x, x, x, x]"
  by (simp add: numeral_eq_Suc)

lemma spec_row_length: "length (spec_row c) = 4"
  by (simp add: spec_row_def)

lemma encode_step:
  assumes "index < length enc" and "enc ! index = [0, 0, 0, 0]"
  shows "(case BASES_DICT [c] of
            Some col \<Rightarrow> setitem enc index col 1
          | None \<Rightarrow> setrow enc index (1 / 4)) = Inr (enc[index := spec_row c])"
  using assms
  by (simp add: BASES_DICT_lookup setitem_def setrow_def np_index_def spec_row_def)

lemma encode_loop_fits:
  assumes "index + length us \<le> length enc"
    and "\<forall>i. index \<le> i \<and> i < length enc \<longrightarrow> enc ! i = [0, 0, 0, 0]"
  shows "encode_loop BASES_DICT enc index us =
           Inr (take index enc @ map spec_row us @ drop (index + length us) enc)"
  using assms
proof (induction us arbitrary: enc index)
  case Nil
  then show ?case by simp
next
  case (Cons c us)
  let ?enc' = "enc[index := spec_row c]"
  have lt: "index < length enc" using Cons.prems(1) by simp
  have z: "enc ! index = [0, 0, 0, 0]" using Cons.prems(2) lt by simp
  have step: "encode_loop BASES_DICT enc index (c # us) = encode_loop BASES_DICT ?enc' (Suc index) us"
    using encode_step [OF lt z, of c]
    by (simp split: option.splits)
  have "encode_loop BASES_DICT ?enc' (Suc index) us =
          Inr (take (Suc index) ?enc' @ map spec_row us @ drop (Suc index + length us) ?enc')"
  proof (rule Cons.IH)
    show "Suc index + length us \<le> length ?enc'" using Cons.prems(1) by simp
    show "\<forall>i. Suc index \<le> i \<and> i < length ?enc' \<longrightarrow> ?enc' ! i = [0, 0, 0, 0]"
      using Cons.prems(2) by simp
  qed
  moreover have "take (Suc index) ?enc' = take index enc @ [spec_row c]"
    using lt by (simp add: take_Suc_conv_app_nth)
  moreover have "drop (Suc index + length us) ?enc' = drop (index + length (c # us)) enc"
    by simp
  ultimately show ?case using step by simp
qed

lemma encode_loop_overflow:
  assumes "index \<le> length enc" and "length enc < index + length us"
  shows "encode_loop BASES_DICT enc index us = Inl IndexError"
  using assms
proof (induction us arbitrary: enc index)
  case Nil
  then show ?case by simp
next
  case (Cons c us)
  show ?case
  proof (cases "index < length enc")
    case False
    then show ?thesis
      by (simp add: setitem_def setrow_def split: option.splits)
  next
    case True
    have ih: "encode_loop BASES_DICT enc' (Suc index) us = Inl IndexError"
      if "length enc' = length enc" for enc'
      using Cons.IH [of "Suc index" enc'] Cons.prems True that by simp
    show ?thesis
      using True ih
      by (auto simp: setitem_def setrow_def np_index_def split: option.splits sum.splits if_splits)
  qed
qed

lemma upper_char_nonempty: "upper_char tbl c \<noteq> []"
  by (simp add: upper_char_def upper_latin1_def)

lemma str_upper_length: "length s \<le> length (str_upper tbl s)"
proof (induction s)
  case Nil
  then show ?case by (simp add: str_upper_def)
next
  case (Cons c s)
  have "1 \<le> length (upper_char tbl c)"
    using upper_char_nonempty [of tbl c] by (cases "upper_char tbl c") simp_all
  then show ?case using Cons by (simp add: str_upper_def)
qed

lemma sequence_to_encoding_BASES:
  "sequence_to_encoding tbl s BASES_DICT =
     (if length (str_upper tbl s) = length s then Inr (map spec_row (str_upper tbl s))
      else Inl IndexError)"
proof (cases "length (str_upper tbl s) = length s")
  case True
  then show ?thesis
    using encode_loop_fits [of 0 "str_upper tbl s" "np_zeros (length s) 4"]
    by (simp add: sequence_to_encoding_def np_zeros_def replicate_4)
next
  case False
  then have "length s < length (str_upper tbl s)"
    using str_upper_length [of s tbl] by simp
  then show ?thesis
    using False encode_loop_overflow [of 0 "np_zeros (length s) 4" "str_upper tbl s"]
    by (simp add: sequence_to_encoding_def np_zeros_def)
qed

section \<open>Lemmas about the decoding loop\<close>

lemma np_where_eq1_set: "set (np_where_eq1 row) = {k. k < length row \<and> row ! k = 1}"
  by (auto simp: np_where_eq1_def)

lemma np_where_eq1_distinct: "distinct (np_where_eq1 row)"
  by (simp add: np_where_eq1_def)

lemma np_where_eq1_unique:
  assumes "j < length row" and "row ! j = 1"
    and "\<forall>k<length row. row ! k = 1 \<longrightarrow> k = j"
  shows "np_where_eq1 row = [j]"
proof -
  have "{k. k < length row \<and> row ! k = 1} = {j}"
    using assms by blast
  then have s: "set (np_where_eq1 row) = {j}"
    by (simp only: np_where_eq1_set)
  have "length (np_where_eq1 row) = card (set (np_where_eq1 row))"
    using np_where_eq1_distinct [of row] by (simp add: distinct_card)
  then have "length (np_where_eq1 row) = 1" using s by simp
  then obtain x where x: "np_where_eq1 row = [x]"
    by (cases "np_where_eq1 row") auto
  then show ?thesis using s by simp
qed

lemma np_where_eq1_single:
  assumes "length (np_where_eq1 row) = 1"
  shows "\<exists>j<length row. row ! j = 1 \<and> (\<forall>k<length row. row ! k = 1 \<longrightarrow> k = j)"
proof -
  obtain x where x: "np_where_eq1 row = [x]"
    using assms by (cases "np_where_eq1 row") auto
  have "{k. k < length row \<and> row ! k = 1} = {x}"
    using np_where_eq1_set [of row] x by simp
  then show ?thesis by blast
qed

lemma decode_loop_rows:
  assumes "\<forall>row\<in>set enc. length (np_where_eq1 row) = 1 \<longrightarrow> hd (np_where_eq1 row) < length bases_arr"
  shows "decode_loop bases_arr acc enc = Inr (acc @ map (decode_row bases_arr) enc)"
  using assms
proof (induction enc arbitrary: acc)
  case Nil
  then show ?case by simp
next
  case (Cons row enc)
  then show ?case by (simp add: decode_row_def Let_def)
qed

lemma hd_np_where_eq1_less:
  assumes "length (np_where_eq1 row) = 1"
  shows "hd (np_where_eq1 row) < length row"
proof -
  obtain x where x: "np_where_eq1 row = [x]"
    using assms by (cases "np_where_eq1 row") auto
  then have "x \<in> set (np_where_eq1 row)" by simp
  then have "x < length row" by (simp add: np_where_eq1_set)
  then show ?thesis using x by simp
qed

lemma decode_row_BASES_length:
  assumes "length row = 4"
  shows "length (decode_row BASES_ARR row) = 1"
proof (cases "length (np_where_eq1 row) = 1")
  case False
  then show ?thesis by (simp add: decode_row_def str_Cons str_Nil)
next
  case True
  have "hd (np_where_eq1 row) < 4"
    using hd_np_where_eq1_less [OF True] assms by simp
  then have "hd (np_where_eq1 row) \<in> {0, 1, 2, 3}" by auto
  then show ?thesis
    using True by (auto simp: decode_row_def BASES_ARR_def str_Cons str_Nil)
qed

lemma concat_singletons:
  assumes "\<forall>x\<in>set xs. length (f x) = 1"
  shows "length (concat (map f xs)) = length xs \<and> (\<forall>i<length xs. f (xs ! i) = [concat (map f xs) ! i])"
  using assms
proof (induction xs)
  case Nil
  then show ?case by simp
next
  case (Cons x xs)
  then obtain y where y: "f x = [y]"
    by (cases "f x") auto
  have ih: "length (concat (map f xs)) = length xs"
    "\<forall>i<length xs. f (xs ! i) = [concat (map f xs) ! i]"
    using Cons by simp_all
  show ?case
  proof (intro conjI allI impI)
    show "length (concat (map f (x # xs))) = length (x # xs)"
      using y ih(1) by simp
  next
    fix i assume "i < length (x # xs)"
    then show "f ((x # xs) ! i) = [concat (map f (x # xs)) ! i]"
      using y ih(2) by (cases i) simp_all
  qed
qed

text \<open>
  Outside the shape \<open>N \<times> 4\<close> the decoding can raise: a row of five columns whose
  only 1 stands in the fifth indexes the alphabet past its end.
\<close>

lemma encoding_to_sequence_wide_row:
  "encoding_to_sequence [[0, 0, 0, 0, 1]] BASES_ARR = Inl IndexError"
  by (simp add: encoding_to_sequence_def np_where_eq1_def BASES_ARR_def upt_conv_Cons)

section \<open>Lemmas about the round trip\<close>

lemma upper_char_base:
  assumes "c \<in> set (str ''ACGTacgt'')"
  shows "\<exists>u. upper_char tbl c = [u] \<and> u \<in> {65, 67, 71, 84}"
  using assms by (auto simp: str_Cons str_Nil upper_char_def upper_latin1_def)

lemma str_upper_bases:
  assumes "set s \<subseteq> set (str ''ACGTacgt'')"
  shows "length (str_upper tbl s) = length s \<and> set (str_upper tbl s) \<subseteq> {65, 67, 71, 84}"
  using assms
proof (induction s)
  case Nil
  then show ?case by (simp add: str_upper_def)
next
  case (Cons c s)
  then have "c \<in> set (str ''ACGTacgt'')" by simp
  then obtain u where u: "upper_char tbl c = [u]" "u \<in> {65, 67, 71, 84}"
    using upper_char_base by blast
  have "str_upper tbl (c # s) = u # str_upper tbl s"
    using u(1) by (simp add: str_upper_def)
  then show ?case using Cons u(2) by auto
qed

lemma np_where_eq1_spec_row:
  "np_where_eq1 (spec_row u) =
     (if u = 65 then [0] else if u = 67 then [1] else if u = 71 then [2]
      else if u = 84 then [3] else [])"
  by (simp add: np_where_eq1_def spec_row_def upt_conv_Cons)

lemma decode_row_spec_row:
  "decode_row BASES_ARR (spec_row u) = (if u \<in> {65, 67, 71, 84} then [u] else str ''N'')"
  by (simp add: decode_row_def np_where_eq1_spec_row BASES_ARR_def str_Cons str_Nil)

lemma decode_loop_spec_rows:
  "decode_loop BASES_ARR [] (map spec_row us) = Inr (map (\<lambda>u. decode_row BASES_ARR (spec_row u)) us)"
proof -
  have "decode_loop BASES_ARR [] (map spec_row us)
          = Inr ([] @ map (decode_row BASES_ARR) (map spec_row us))"
  proof (rule decode_loop_rows, intro ballI impI)
    fix row
    assume "row \<in> set (map spec_row us)" and one: "length (np_where_eq1 row) = 1"
    then obtain u where "row = spec_row u" by auto
    then have "length row = 4" by (simp add: spec_row_length)
    then show "hd (np_where_eq1 row) < length BASES_ARR"
      using hd_np_where_eq1_less [OF one] by (simp add: BASES_ARR_def)
  qed
  then show ?thesis by (simp add: comp_def)
qed

lemma concat_bases:
  assumes "set us \<subseteq> {65, 67, 71, 84}"
  shows "concat (map (\<lambda>u. decode_row BASES_ARR (spec_row u)) us) = us"
  using assms by (induction us) (simp_all add: decode_row_spec_row)

lemma sum_list_spec_row: "sum_list (spec_row c) = 1"
  by (simp add: spec_row_def)

section \<open>Lemmas about the genome\<close>

lemma plus_neq_minus: "str ''-'' \<noteq> str ''+''"
  by (simp add: str_Cons str_Nil)

lemma toy_len: "len_chrs toy_genome (str ''chr1'') = Some 12"
  by (simp add: toy_genome_def)

lemma toy_forward:
  "Genome_genome_sequence toy_genome (str ''chr1'') start end (str ''+'')
     = Inr (py_slice (str ''ACGTNACCGTTA'') start end)"
  by (simp add: Genome_genome_sequence_def toy_genome_def mem_fasta_def)

lemma toy_slices:
  "py_slice (str ''ACGTNACCGTTA'') 0 4 = str ''ACGT''"
  "py_slice (str ''ACGTNACCGTTA'') 0 5 = str ''ACGTN''"
  "py_slice (str ''ACGTNACCGTTA'') 3 5 = str ''TN''"
  "py_slice (str ''ACGTNACCGTTA'') 2 2 = []"
  "py_slice (str ''ACGTNACCGTTA'') 0 (- 2) = str ''ACGTNACCGT''"
  by (simp_all add: py_slice_def str_Cons str_Nil)

lemma sideways_message:
  "str ''Strand must be one of '+' or '-'. Input was '' @ str ''sideways''
     = str ''Strand must be one of '+' or '-'. Input was sideways''"
  by (simp add: str_def)

lemma sequence_to_encoding_empty: "sequence_to_encoding tbl [] bases_encoding = Inr []"
  by (simp add: sequence_to_encoding_def str_upper_def np_zeros_def)

lemma get_sequence_unfold:
  "Genome_get_sequence_from_coords self chrom start end strand =
     (case len_chrs self chrom of
        None \<Rightarrow> Inl (KeyError chrom)
      | Some n \<Rightarrow>
          if start > n \<or> end > n \<or> start < 0 then Inr []
          else if strand = str ''+'' \<or> strand = str ''-''
               then Genome_genome_sequence self chrom start end strand
          else Inl (ValueError
                 (str ''Strand must be one of '+' or '-'. Input was '' @ strand)))"
  by (simp add: Genome_get_sequence_from_coords_def get_sequence_from_coords_def
      split: option.splits)

lemma bounds_check_exact:
  assumes "lens chrom = Some L"
  shows "(\<forall>genome_sequence strand.
            get_sequence_from_coords lens genome_sequence chrom start end strand = Inr [])
         = (start > L \<or> end > L \<or> start < 0)"
proof
  assume all: "\<forall>genome_sequence strand.
            get_sequence_from_coords lens genome_sequence chrom start end strand = Inr []"
  show "start > L \<or> end > L \<or> start < 0"
  proof (rule ccontr)
    assume inb: "\<not> (start > L \<or> end > L \<or> start < 0)"
    have "get_sequence_from_coords lens (\<lambda>_ _ _ _. Inr (str ''A'')) chrom start end (str ''+'')
            = Inr (str ''A'')"
      using assms inb by (simp add: get_sequence_from_coords_def)
    moreover have "get_sequence_from_coords lens (\<lambda>_ _ _ _. Inr (str ''A'')) chrom start end (str ''+'')
            = Inr []"
      using all by blast
    ultimately show False by (simp add: str_Cons)
  qed
next
  assume "start > L \<or> end > L \<or> start < 0"
  then show "\<forall>genome_sequence strand.
            get_sequence_from_coords lens genome_sequence chrom start end strand = Inr []"
    using assms by (simp add: get_sequence_from_coords_def)
qed

section \<open>The claims\<close>

text \<open>
  C1. For every string whose characters are all among A, C, G, T in either case,
  encoding succeeds and decoding the encoding returns the uppercased string.
\<close>

theorem decode_encode_roundtrip:
  assumes "set s \<subseteq> set (str ''ACGTacgt'')"
  shows "\<exists>enc. sequence_to_encoding tbl s BASES_DICT = Inr enc \<and>
               encoding_to_sequence enc BASES_ARR = Inr (str_upper tbl s)"
proof -
  have up: "length (str_upper tbl s) = length s" "set (str_upper tbl s) \<subseteq> {65, 67, 71, 84}"
    using str_upper_bases [OF assms] by simp_all
  have enc: "sequence_to_encoding tbl s BASES_DICT = Inr (map spec_row (str_upper tbl s))"
    using up(1) by (simp add: sequence_to_encoding_BASES)
  have "encoding_to_sequence (map spec_row (str_upper tbl s)) BASES_ARR
          = Inr (concat (map (\<lambda>u. decode_row BASES_ARR (spec_row u)) (str_upper tbl s)))"
    by (simp add: encoding_to_sequence_def decode_loop_spec_rows)
  then have "encoding_to_sequence (map spec_row (str_upper tbl s)) BASES_ARR
          = Inr (str_upper tbl s)"
    using concat_bases [OF up(2)] by simp
  then show ?thesis using enc by simp
qed

theorem decode_encode_roundtrip_witness:
  "set (str ''aCgT'') \<subseteq> set (str ''ACGTacgt'') \<and>
   str_upper no_rows (str ''aCgT'') = str ''ACGT'' \<and>
   sequence_to_encoding no_rows (str ''aCgT'') BASES_DICT
     = Inr [[1, 0, 0, 0], [0, 1, 0, 0], [0, 0, 1, 0], [0, 0, 0, 1]] \<and>
   encoding_to_sequence [[1, 0, 0, 0], [0, 1, 0, 0], [0, 0, 1, 0], [0, 0, 0, 1]] BASES_ARR
     = Inr (str ''ACGT'')"
proof -
  have h: "set (str ''aCgT'') \<subseteq> set (str ''ACGTacgt'')"
    by (simp add: str_Cons str_Nil)
  have u: "str_upper no_rows (str ''aCgT'') = str ''ACGT''"
    by (simp add: str_upper_def upper_char_def upper_latin1_def str_Cons str_Nil)
  have e: "sequence_to_encoding no_rows (str ''aCgT'') BASES_DICT
     = Inr [[1, 0, 0, 0], [0, 1, 0, 0], [0, 0, 1, 0], [0, 0, 0, 1]]"
    using u by (simp add: sequence_to_encoding_BASES) (simp add: spec_row_def str_Cons str_Nil)
  show ?thesis
    using decode_encode_roundtrip [OF h, of no_rows] h u e by simp
qed

text \<open>
  C2. The claim is that encoding never fails and returns one row per character of
  the argument. The code at the one-character string U+00DF (sharp s): the array
  has one row, the uppercased string \<open>SS\<close> has two characters, and the second
  iteration writes row 1, which raises IndexError. For the strings whose uppercasing
  keeps the length the rows are those of \<open>sequence_to_encoding_BASES\<close>.
\<close>

theorem encode_sharp_s_IndexError:
  "length [223 :: codepoint] = 1 \<and> str_upper tbl [223] = str ''SS'' \<and>
   sequence_to_encoding tbl [223] BASES_DICT = Inl IndexError"
  by (simp add: sequence_to_encoding_BASES)
     (simp add: str_upper_def upper_char_def upper_latin1_def str_Cons str_Nil)

text \<open>
  C3. Decoding an encoding, an array whose rows have four columns, returns a string
  with one symbol per row: a row in which exactly one column equals 1 gives the
  alphabet symbol at that column's index, and a row in which no column or more than
  one column equals 1 (an all-0.25 row among them) gives \<open>N\<close>.
\<close>

theorem encoding_to_sequence_rows:
  assumes "\<forall>row\<in>set enc. length row = 4"
  shows "\<exists>s. encoding_to_sequence enc BASES_ARR = Inr s \<and> length s = length enc \<and>
           (\<forall>i<length enc. \<forall>j<4.
               enc ! i ! j = 1 \<and> (\<forall>k<4. enc ! i ! k = 1 \<longrightarrow> k = j)
                 \<longrightarrow> [s ! i] = BASES_ARR ! j) \<and>
           (\<forall>i<length enc.
               \<not> (\<exists>j<4. enc ! i ! j = 1 \<and> (\<forall>k<4. enc ! i ! k = 1 \<longrightarrow> k = j))
                 \<longrightarrow> s ! i = of_char CHR ''N'')"
proof -
  let ?s = "concat (map (decode_row BASES_ARR) enc)"
  have len4: "length (enc ! i) = 4" if "i < length enc" for i
    using assms that by simp
  have "\<forall>row\<in>set enc. length (np_where_eq1 row) = 1 \<longrightarrow> hd (np_where_eq1 row) < length BASES_ARR"
  proof (intro ballI impI)
    fix row assume "row \<in> set enc" and one: "length (np_where_eq1 row) = 1"
    then show "hd (np_where_eq1 row) < length BASES_ARR"
      using hd_np_where_eq1_less [OF one] assms by (simp add: BASES_ARR_def)
  qed
  then have "decode_loop BASES_ARR [] enc = Inr (map (decode_row BASES_ARR) enc)"
    using decode_loop_rows [of enc BASES_ARR "[]"] by simp
  then have res: "encoding_to_sequence enc BASES_ARR = Inr ?s"
    by (simp add: encoding_to_sequence_def)
  have single: "\<forall>row\<in>set enc. length (decode_row BASES_ARR row) = 1"
    using assms decode_row_BASES_length by blast
  have len: "length ?s = length enc"
    and nth: "\<forall>i<length enc. decode_row BASES_ARR (enc ! i) = [?s ! i]"
    using concat_singletons [OF single] by simp_all
  have hot: "[?s ! i] = BASES_ARR ! j"
    if "i < length enc" "j < 4" "enc ! i ! j = 1" "\<forall>k<4. enc ! i ! k = 1 \<longrightarrow> k = j" for i j
  proof -
    have w: "np_where_eq1 (enc ! i) = [j]"
    proof (rule np_where_eq1_unique)
      show "j < length (enc ! i)" unfolding len4 [OF that(1)] by (rule that(2))
      show "enc ! i ! j = 1" by (rule that(3))
      show "\<forall>k<length (enc ! i). enc ! i ! k = 1 \<longrightarrow> k = j"
        unfolding len4 [OF that(1)] by (rule that(4))
    qed
    have "decode_row BASES_ARR (enc ! i) = BASES_ARR ! j"
      using w by (simp add: decode_row_def)
    then show ?thesis using nth that(1) by simp
  qed
  have cold: "?s ! i = of_char CHR ''N''"
    if "i < length enc"
      "\<not> (\<exists>j<4. enc ! i ! j = 1 \<and> (\<forall>k<4. enc ! i ! k = 1 \<longrightarrow> k = j))" for i
  proof -
    have "length (np_where_eq1 (enc ! i)) \<noteq> 1"
    proof
      assume "length (np_where_eq1 (enc ! i)) = 1"
      then have "\<exists>j<4. enc ! i ! j = 1 \<and> (\<forall>k<4. enc ! i ! k = 1 \<longrightarrow> k = j)"
        using np_where_eq1_single [of "enc ! i"] unfolding len4 [OF that(1)] by blast
      then show False by (rule notE [OF that(2)])
    qed
    then have "decode_row BASES_ARR (enc ! i) = [of_char CHR ''N'']"
      by (simp add: decode_row_def str_Cons str_Nil)
    then show ?thesis using nth that(1) by simp
  qed
  show ?thesis
  proof (intro exI conjI allI impI)
    show "encoding_to_sequence enc BASES_ARR = Inr ?s" by (rule res)
    show "length ?s = length enc" by (rule len)
  next
    fix i j
    assume a: "i < length enc" and b: "j < 4"
      and c: "enc ! i ! j = 1 \<and> (\<forall>k<4. enc ! i ! k = 1 \<longrightarrow> k = j)"
    show "[?s ! i] = BASES_ARR ! j"
      by (rule hot [OF a b conjunct1 [OF c] conjunct2 [OF c]])
  next
    fix i
    assume a: "i < length enc"
      and b: "\<not> (\<exists>j<4. enc ! i ! j = 1 \<and> (\<forall>k<4. enc ! i ! k = 1 \<longrightarrow> k = j))"
    show "?s ! i = of_char CHR ''N''"
      by (rule cold [OF a b])
  qed
qed

theorem encoding_to_sequence_rows_witness:
  "length [0, 0, 1, 0 :: real] = 4 \<and> length [1 / 4, 1 / 4, 1 / 4, 1 / 4 :: real] = 4 \<and>
   length [1, 1, 0, 0 :: real] = 4 \<and>
   (\<exists>s. encoding_to_sequence [[0, 0, 1, 0], [1 / 4, 1 / 4, 1 / 4, 1 / 4], [1, 1, 0, 0]] BASES_ARR
          = Inr s \<and> length s = 3) \<and>
   encoding_to_sequence [[0, 0, 1, 0], [1 / 4, 1 / 4, 1 / 4, 1 / 4], [1, 1, 0, 0]] BASES_ARR
     = Inr (str ''GNN'')"
proof -
  let ?enc = "[[0, 0, 1, 0], [1 / 4, 1 / 4, 1 / 4, 1 / 4], [1, 1, 0, 0 :: real]]"
  have h: "\<forall>row\<in>set ?enc. length row = 4" by simp
  obtain s where s: "encoding_to_sequence ?enc BASES_ARR = Inr s" "length s = length ?enc"
    using encoding_to_sequence_rows [OF h] by blast
  have v: "encoding_to_sequence ?enc BASES_ARR = Inr (str ''GNN'')"
    by (simp add: encoding_to_sequence_def np_where_eq1_def BASES_ARR_def str_Cons str_Nil
        upt_conv_Cons)
  show ?thesis using s v by simp
qed

text \<open>
  C4, as stated, fails: over the in-memory storage, on a chromosome of length 12,
  the request (2, 2) on the forward strand passes the bounds check and returns the
  empty string, the empty slice of the stored sequence; so the empty string is not
  returned only when the bounds check rejects.
\<close>

theorem get_sequence_empty_in_bounds:
  "len_chrs toy_genome (str ''chr1'') = Some 12 \<and>
   \<not> ((Genome_get_sequence_from_coords toy_genome (str ''chr1'') 2 2 (str ''+'') = Inr [])
        = (2 > (12 :: int) \<or> 2 > (12 :: int) \<or> (2 :: int) < 0))"
  by (simp add: get_sequence_unfold toy_len toy_forward toy_slices)

text \<open>
  C4, amended. For a known chromosome of length \<open>L\<close>: when \<open>start > L\<close> or
  \<open>end > L\<close> or \<open>start < 0\<close> the result is the empty string, without raising, for
  every strand value; otherwise the result is that of the strand dispatch, the
  storage's answer for the two strand tokens and the strand error for any other. The
  empty string is the result whatever the storage and the strand are exactly when
  one of the three comparisons holds. A negative \<open>end\<close> is not rejected by the
  check; the requests \<open>(L, L + 1)\<close> and \<open>(-1, 5)\<close> return the empty string.
\<close>

theorem get_sequence_bounds:
  assumes "len_chrs self chrom = Some L"
  shows "(start > L \<or> end > L \<or> start < 0 \<longrightarrow>
            Genome_get_sequence_from_coords self chrom start end strand = Inr []) \<and>
         (\<not> (start > L \<or> end > L \<or> start < 0) \<longrightarrow>
            Genome_get_sequence_from_coords self chrom start end strand =
              (if strand = str ''+'' \<or> strand = str ''-''
               then Genome_genome_sequence self chrom start end strand
               else Inl (ValueError
                      (str ''Strand must be one of '+' or '-'. Input was '' @ strand)))) \<and>
         ((\<forall>genome_sequence strand'.
             get_sequence_from_coords (len_chrs self) genome_sequence chrom start end strand'
               = Inr [])
          = (start > L \<or> end > L \<or> start < 0)) \<and>
         (0 \<le> start \<and> start \<le> L \<and> end < 0 \<longrightarrow>
            Genome_get_sequence_from_coords self chrom start end (str ''+'')
              = fa_slice (genome self) chrom start end) \<and>
         Genome_get_sequence_from_coords self chrom L (L + 1) strand = Inr [] \<and>
         Genome_get_sequence_from_coords self chrom (- 1) 5 strand = Inr []"
proof -
  have rest: "(start > L \<or> end > L \<or> start < 0 \<longrightarrow>
            Genome_get_sequence_from_coords self chrom start end strand = Inr []) \<and>
         (\<not> (start > L \<or> end > L \<or> start < 0) \<longrightarrow>
            Genome_get_sequence_from_coords self chrom start end strand =
              (if strand = str ''+'' \<or> strand = str ''-''
               then Genome_genome_sequence self chrom start end strand
               else Inl (ValueError
                      (str ''Strand must be one of '+' or '-'. Input was '' @ strand)))) \<and>
         (0 \<le> start \<and> start \<le> L \<and> end < 0 \<longrightarrow>
            Genome_get_sequence_from_coords self chrom start end (str ''+'')
              = fa_slice (genome self) chrom start end) \<and>
         Genome_get_sequence_from_coords self chrom L (L + 1) strand = Inr [] \<and>
         Genome_get_sequence_from_coords self chrom (- 1) 5 strand = Inr []"
    using assms by (simp add: get_sequence_unfold Genome_genome_sequence_def)
  have exact: "(\<forall>genome_sequence strand'.
             get_sequence_from_coords (len_chrs self) genome_sequence chrom start end strand'
               = Inr [])
          = (start > L \<or> end > L \<or> start < 0)"
    using assms by (rule bounds_check_exact [of "len_chrs self" chrom L start "end"])
  show ?thesis
    using rest exact by (intro conjI) simp_all
qed

theorem get_sequence_bounds_witness:
  "len_chrs toy_genome (str ''chr1'') = Some 12 \<and>
   Genome_get_sequence_from_coords toy_genome (str ''chr1'') 0 13 (str ''+'') = Inr [] \<and>
   Genome_get_sequence_from_coords toy_genome (str ''chr1'') 12 13 (str ''+'') = Inr [] \<and>
   Genome_get_sequence_from_coords toy_genome (str ''chr1'') (- 1) 5 (str ''+'') = Inr [] \<and>
   Genome_get_sequence_from_coords toy_genome (str ''chr1'') 0 4 (str ''+'') = Inr (str ''ACGT'') \<and>
   Genome_get_sequence_from_coords toy_genome (str ''chr1'') 0 (- 2) (str ''+'')
     = Inr (str ''ACGTNACCGT'')"
proof -
  note th = get_sequence_bounds [OF toy_len]
  have a: "Genome_get_sequence_from_coords toy_genome (str ''chr1'') 0 13 (str ''+'') = Inr []"
    using th [of 0 13 "str ''+''"] by simp
  have b: "Genome_get_sequence_from_coords toy_genome (str ''chr1'') 12 13 (str ''+'') = Inr []"
    using th [of 0 0 "str ''+''"] by simp
  have c: "Genome_get_sequence_from_coords toy_genome (str ''chr1'') (- 1) 5 (str ''+'') = Inr []"
    using th [of 0 0 "str ''+''"] by simp
  have d: "Genome_get_sequence_from_coords toy_genome (str ''chr1'') 0 4 (str ''+'')
             = Inr (str ''ACGT'')"
    using th [of 0 4 "str ''+''"] by (simp add: toy_forward toy_slices)
  have e: "Genome_get_sequence_from_coords toy_genome (str ''chr1'') 0 (- 2) (str ''+'')
             = Inr (str ''ACGTNACCGT'')"
    using th [of 0 "- 2" "str ''+''"] toy_forward [of 0 "- 2"]
    by (simp add: Genome_genome_sequence_def toy_slices)
  show ?thesis using toy_len a b c d e by simp
qed

text \<open>
  C5. For a known chromosome and an interval that passes the bounds check, a strand
  value that is neither \<open>+\<close> nor \<open>-\<close> raises the strand error (a ValueError in the
  source), whose message ends with the offending strand value.
\<close>

theorem invalid_strand_ValueError:
  assumes "len_chrs self chrom = Some L"
    and "\<not> (start > L \<or> end > L \<or> start < 0)"
    and "strand \<noteq> str ''+''" and "strand \<noteq> str ''-''"
  shows "Genome_get_sequence_from_coords self chrom start end strand =
           Inl (ValueError (str ''Strand must be one of '+' or '-'. Input was '' @ strand))"
  using assms by (simp add: get_sequence_unfold)

theorem invalid_strand_ValueError_witness:
  "len_chrs toy_genome (str ''chr1'') = Some 12 \<and>
   \<not> (0 > (12 :: int) \<or> 10 > (12 :: int) \<or> (0 :: int) < 0) \<and>
   str ''sideways'' \<noteq> str ''+'' \<and> str ''sideways'' \<noteq> str ''-'' \<and>
   Genome_get_sequence_from_coords toy_genome (str ''chr1'') 0 10 (str ''sideways'') =
     Inl (ValueError (str ''Strand must be one of '+' or '-'. Input was sideways''))"
proof -
  have s: "str ''sideways'' \<noteq> str ''+''" "str ''sideways'' \<noteq> str ''-''"
    by (simp_all add: str_Cons str_Nil)
  have b: "\<not> (0 > (12 :: int) \<or> 10 > (12 :: int) \<or> (0 :: int) < 0)" by simp
  show ?thesis
    using invalid_strand_ValueError [OF toy_len b s] toy_len s
    by (simp add: sideways_message)
qed

text \<open>
  C6. The bounds check comes before the strand dispatch: for a known chromosome, a
  request whose interval fails the check returns the empty string whatever the
  strand value is, also an invalid one; and whenever the call raises, the strand
  error included, the interval has passed the check.
\<close>

theorem bounds_before_strand:
  assumes "len_chrs self chrom = Some L"
  shows "(start > L \<or> end > L \<or> start < 0 \<longrightarrow>
            Genome_get_sequence_from_coords self chrom start end strand = Inr []) \<and>
         (\<forall>e. Genome_get_sequence_from_coords self chrom start end strand = Inl e \<longrightarrow>
            0 \<le> start \<and> start \<le> L \<and> end \<le> L)"
  using assms by (auto simp: get_sequence_unfold split: if_splits)

theorem bounds_before_strand_witness:
  "len_chrs toy_genome (str ''chr1'') = Some 12 \<and>
   str ''sideways'' \<noteq> str ''+'' \<and> str ''sideways'' \<noteq> str ''-'' \<and>
   Genome_get_sequence_from_coords toy_genome (str ''chr1'') 12 13 (str ''sideways'') = Inr [] \<and>
   Genome_get_sequence_from_coords toy_genome (str ''chr1'') (- 1) 5 (str ''sideways'') = Inr []"
proof -
  have s: "str ''sideways'' \<noteq> str ''+''" "str ''sideways'' \<noteq> str ''-''"
    by (simp_all add: str_Cons str_Nil)
  have a: "Genome_get_sequence_from_coords toy_genome (str ''chr1'') 12 13 (str ''sideways'') = Inr []"
    using bounds_before_strand [OF toy_len, of 12 13 "str ''sideways''"] by simp
  have b: "Genome_get_sequence_from_coords toy_genome (str ''chr1'') (- 1) 5 (str ''sideways'') = Inr []"
    using bounds_before_strand [OF toy_len, of "- 1" 5 "str ''sideways''"] by simp
  show ?thesis using toy_len s a b by simp
qed

text \<open>
  C7. For a known chromosome and an in-bounds interval, over a storage whose
  \<^verbatim>\<open>.reverse\<close> reverses the order and whose \<^verbatim>\<open>.complement\<close> substitutes symbol by
  symbol, exchanging A with T and C with G, the reverse-strand result is the reverse
  complement (substitute, then reverse) of the forward-strand result; an error of
  the storage on the forward strand is the same error on the reverse strand. The
  source reverses first and complements second.
\<close>

theorem reverse_strand_reverse_complement:
  assumes "len_chrs self chrom = Some L"
    and "0 \<le> start" and "start \<le> L" and "end \<le> L"
    and "\<forall>s. fa_reverse (genome self) s = Inr (rev s)"
    and "\<forall>s. fa_complement (genome self) s = Inr (map cmpl s)"
    and "pairs_bases cmpl"
  shows "Genome_get_sequence_from_coords self chrom start end (str ''-'') =
           (case Genome_get_sequence_from_coords self chrom start end (str ''+'') of
              Inl e \<Rightarrow> Inl e
            | Inr s \<Rightarrow> Inr (spec_reverse_complement cmpl s))"
proof -
  have inb: "\<not> (start > L \<or> end > L \<or> start < 0)"
    using assms(2-4) by simp
  have fwd: "Genome_get_sequence_from_coords self chrom start end (str ''+'')
               = fa_slice (genome self) chrom start end"
    using assms(1) inb by (simp add: get_sequence_unfold Genome_genome_sequence_def)
  have bwd: "Genome_get_sequence_from_coords self chrom start end (str ''-'')
               = (case fa_slice (genome self) chrom start end of
                    Inl e \<Rightarrow> Inl e
                  | Inr s \<Rightarrow> Inr (map cmpl (rev s)))"
    using assms(1,5,6) inb
    by (simp add: get_sequence_unfold Genome_genome_sequence_def plus_neq_minus
        split: sum.splits)
  show ?thesis
    unfolding fwd bwd by (simp add: spec_reverse_complement_def rev_map split: sum.splits)
qed

theorem reverse_strand_reverse_complement_witness:
  "len_chrs toy_genome (str ''chr1'') = Some 12 \<and> (0 :: int) \<le> 0 \<and> (0 :: int) \<le> 12 \<and>
   (5 :: int) \<le> 12 \<and>
   fa_reverse (genome toy_genome) (str ''ACGTN'') = Inr (str ''NTGCA'') \<and>
   fa_complement (genome toy_genome) (str ''NTGCA'') = Inr (str ''NACGT'') \<and>
   pairs_bases mem_complement \<and>
   Genome_get_sequence_from_coords toy_genome (str ''chr1'') 0 5 (str ''+'') = Inr (str ''ACGTN'') \<and>
   spec_reverse_complement mem_complement (str ''ACGTN'') = str ''NACGT'' \<and>
   Genome_get_sequence_from_coords toy_genome (str ''chr1'') 0 5 (str ''-'') = Inr (str ''NACGT'')"
proof -
  have r: "\<forall>s. fa_reverse (genome toy_genome) s = Inr (rev s)"
    by (simp add: toy_genome_def mem_fasta_def)
  have c: "\<forall>s. fa_complement (genome toy_genome) s = Inr (map mem_complement s)"
    by (simp add: toy_genome_def mem_fasta_def)
  have p: "pairs_bases mem_complement"
    by (simp add: pairs_bases_def mem_complement_def)
  have f: "Genome_get_sequence_from_coords toy_genome (str ''chr1'') 0 5 (str ''+'')
             = Inr (str ''ACGTN'')"
    by (simp add: get_sequence_unfold toy_len toy_forward toy_slices)
  have rc: "spec_reverse_complement mem_complement (str ''ACGTN'') = str ''NACGT''"
    by (simp add: spec_reverse_complement_def mem_complement_def str_Cons str_Nil)
  have m: "Genome_get_sequence_from_coords toy_genome (str ''chr1'') 0 5 (str ''-'')
             = Inr (str ''NACGT'')"
    using reverse_strand_reverse_complement [OF toy_len _ _ _ r c p, of 0 5] f rc by simp
  have r1: "fa_reverse (genome toy_genome) (str ''ACGTN'') = Inr (str ''NTGCA'')"
    using r by (simp add: str_Cons str_Nil)
  have c1: "fa_complement (genome toy_genome) (str ''NTGCA'') = Inr (str ''NACGT'')"
    using c by (simp add: mem_complement_def str_Cons str_Nil)
  show ?thesis using toy_len r1 c1 p f rc m by simp
qed

text \<open>
  C8. \<^verbatim>\<open>get_encoding_from_coords\<close> is the encoding of the result of
  \<^verbatim>\<open>get_sequence_from_coords\<close> on the same arguments: every error of the latter,
  the strand error among them, is the error of the former, and an interval that
  fails the bounds check, whose sequence is the empty string, gives the array with
  no rows and no error.
\<close>

theorem get_encoding_is_encode_of_get_sequence:
  "Genome_get_encoding_from_coords tbl self chrom start end strand =
     (case Genome_get_sequence_from_coords self chrom start end strand of
        Inl e \<Rightarrow> Inl e
      | Inr sequence \<Rightarrow> sequence_to_encoding tbl sequence BASES_DICT) \<and>
   (\<forall>e. Genome_get_sequence_from_coords self chrom start end strand = Inl e \<longrightarrow>
      Genome_get_encoding_from_coords tbl self chrom start end strand = Inl e) \<and>
   (\<forall>L. len_chrs self chrom = Some L \<and> (start > L \<or> end > L \<or> start < 0) \<longrightarrow>
      Genome_get_sequence_from_coords self chrom start end strand = Inr [] \<and>
      Genome_get_encoding_from_coords tbl self chrom start end strand = Inr [])"
proof -
  let ?seq = "Genome_get_sequence_from_coords self chrom start end strand"
  let ?enc = "Genome_get_encoding_from_coords tbl self chrom start end strand"
  have composed: "?enc = (case ?seq of Inl e \<Rightarrow> Inl e
                      | Inr sequence \<Rightarrow> sequence_to_encoding tbl sequence BASES_DICT)"
    by (simp add: Genome_get_encoding_from_coords_def Genome_sequence_to_encoding_def
        split: sum.splits)
  have err: "\<forall>e. ?seq = Inl e \<longrightarrow> ?enc = Inl e"
    using composed by simp
  have empty: "sequence_to_encoding tbl [] BASES_DICT = Inr []"
    by (rule sequence_to_encoding_empty)
  have soft: "\<forall>L. len_chrs self chrom = Some L \<and> (start > L \<or> end > L \<or> start < 0) \<longrightarrow>
                ?seq = Inr [] \<and> ?enc = Inr []"
  proof (intro allI impI)
    fix L
    assume "len_chrs self chrom = Some L \<and> (start > L \<or> end > L \<or> start < 0)"
    then have "?seq = Inr []" by (auto simp: get_sequence_unfold)
    then show "?seq = Inr [] \<and> ?enc = Inr []" using composed empty by simp
  qed
  show ?thesis using composed err soft by (intro conjI)
qed

theorem get_encoding_is_encode_of_get_sequence_witness:
  "Genome_get_encoding_from_coords no_rows toy_genome (str ''chr1'') 12 13 (str ''+'') = Inr [] \<and>
   Genome_get_encoding_from_coords no_rows toy_genome (str ''chr1'') 3 5 (str ''+'')
     = Inr [[0, 0, 0, 1], [1 / 4, 1 / 4, 1 / 4, 1 / 4]] \<and>
   Genome_get_encoding_from_coords no_rows toy_genome (str ''chr1'') 0 10 (str ''sideways'')
     = Inl (ValueError (str ''Strand must be one of '+' or '-'. Input was sideways''))"
proof -
  note th = get_encoding_is_encode_of_get_sequence [of no_rows toy_genome "str ''chr1''"]
  have a: "Genome_get_encoding_from_coords no_rows toy_genome (str ''chr1'') 12 13 (str ''+'') = Inr []"
    using th [of 12 13 "str ''+''"] toy_len by (simp add: sequence_to_encoding_empty)
  have f: "Genome_get_sequence_from_coords toy_genome (str ''chr1'') 3 5 (str ''+'')
             = Inr (str ''TN'')"
    by (simp add: get_sequence_unfold toy_len toy_forward toy_slices)
  have u: "str_upper no_rows (str ''TN'') = str ''TN''"
    by (simp add: str_upper_def upper_char_def upper_latin1_def str_Cons str_Nil)
  have e: "sequence_to_encoding no_rows (str ''TN'') BASES_DICT
             = Inr [[0, 0, 0, 1], [1 / 4, 1 / 4, 1 / 4, 1 / 4]]"
    using u by (simp add: sequence_to_encoding_BASES) (simp add: spec_row_def str_Cons str_Nil)
  have b: "Genome_get_encoding_from_coords no_rows toy_genome (str ''chr1'') 3 5 (str ''+'')
     = Inr [[0, 0, 0, 1], [1 / 4, 1 / 4, 1 / 4, 1 / 4]]"
    using th [of 3 5 "str ''+''"] f e by simp
  have s: "Genome_get_sequence_from_coords toy_genome (str ''chr1'') 0 10 (str ''sideways'')
     = Inl (ValueError (str ''Strand must be one of '+' or '-'. Input was sideways''))"
    by (simp add: get_sequence_unfold toy_len sideways_message)
       (simp add: str_Cons str_Nil)
  have c: "Genome_get_encoding_from_coords no_rows toy_genome (str ''chr1'') 0 10 (str ''sideways'')
     = Inl (ValueError (str ''Strand must be one of '+' or '-'. Input was sideways''))"
    using th [of 0 10 "str ''sideways''"] s by simp
  show ?thesis using a b c by simp
qed

text \<open>
  C9. For a chromosome name that is not a key of the length table the call raises
  KeyError on that name; so the empty string can be the result only for a name that
  is in the table.
\<close>

theorem unknown_chromosome_KeyError:
  "(len_chrs self chrom = None \<longrightarrow>
      Genome_get_sequence_from_coords self chrom start end strand = Inl (KeyError chrom)) \<and>
   (Genome_get_sequence_from_coords self chrom start end strand = Inr [] \<longrightarrow>
      chrom \<in> dom (len_chrs self))"
proof (cases "len_chrs self chrom")
  case None
  then show ?thesis by (simp add: get_sequence_unfold)
next
  case (Some L)
  then show ?thesis by (simp add: dom_def)
qed

theorem unknown_chromosome_KeyError_witness:
  "len_chrs toy_genome (str ''chr2'') = None \<and>
   Genome_get_sequence_from_coords toy_genome (str ''chr2'') 0 1 (str ''+'')
     = Inl (KeyError (str ''chr2'')) \<and>
   Genome_get_sequence_from_coords toy_genome (str ''chr2'') (- 1) 5 (str ''+'')
     = Inl (KeyError (str ''chr2''))"
proof -
  have n: "len_chrs toy_genome (str ''chr2'') = None"
    by (simp add: toy_genome_def str_Cons str_Nil)
  show ?thesis
    using unknown_chromosome_KeyError [of toy_genome "str ''chr2''" 0 1 "str ''+''"]
      unknown_chromosome_KeyError [of toy_genome "str ''chr2''" "- 1" 5 "str ''+''"] n
    by simp
qed

text \<open>
  C10. Every row of an encoding sums to 1: encoding returns an array for every
  string whose uppercasing keeps the length, and in every array it returns, each
  row sums to 1.
\<close>

theorem encoding_rows_sum_to_one:
  "(length (str_upper tbl s) = length s \<longrightarrow>
      (\<exists>enc. sequence_to_encoding tbl s BASES_DICT = Inr enc \<and> length enc = length s)) \<and>
   (\<forall>enc. sequence_to_encoding tbl s BASES_DICT = Inr enc \<longrightarrow>
      (\<forall>row\<in>set enc. sum_list row = 1))"
proof (intro conjI impI allI ballI)
  assume "length (str_upper tbl s) = length s"
  then have "sequence_to_encoding tbl s BASES_DICT = Inr (map spec_row (str_upper tbl s))"
    by (simp add: sequence_to_encoding_BASES)
  then show "\<exists>enc. sequence_to_encoding tbl s BASES_DICT = Inr enc \<and> length enc = length s"
    using \<open>length (str_upper tbl s) = length s\<close> by simp
next
  fix enc row
  assume ret: "sequence_to_encoding tbl s BASES_DICT = Inr enc" and row: "row \<in> set enc"
  have "enc = map spec_row (str_upper tbl s)"
    using ret by (simp add: sequence_to_encoding_BASES split: if_splits)
  then obtain c where "row = spec_row c"
    using row by auto
  then show "sum_list row = 1"
    by (simp add: sum_list_spec_row)
qed

theorem encoding_rows_sum_to_one_witness:
  "length (str_upper no_rows (str ''aNx'')) = length (str ''aNx'') \<and>
   sequence_to_encoding no_rows (str ''aNx'') BASES_DICT
     = Inr [[1, 0, 0, 0], [1 / 4, 1 / 4, 1 / 4, 1 / 4], [1 / 4, 1 / 4, 1 / 4, 1 / 4]] \<and>
   sum_list [1, 0, 0, 0 :: real] = 1 \<and> sum_list [1 / 4, 1 / 4, 1 / 4, 1 / 4 :: real] = 1"
proof -
  have u: "str_upper no_rows (str ''aNx'') = str ''ANX''"
    by (simp add: str_upper_def upper_char_def upper_latin1_def str_Cons str_Nil)
  have e: "sequence_to_encoding no_rows (str ''aNx'') BASES_DICT
     = Inr [[1, 0, 0, 0], [1 / 4, 1 / 4, 1 / 4, 1 / 4], [1 / 4, 1 / 4, 1 / 4, 1 / 4]]"
    using u by (simp add: sequence_to_encoding_BASES) (simp add: spec_row_def str_Cons str_Nil)
  show ?thesis
    using encoding_rows_sum_to_one [of no_rows "str ''aNx''"] u e
    by (simp add: str_Cons str_Nil)
qed

end
